theory Spec2Isabelle
  imports Complex_Main "HOL-Library.Product_Lexorder" "HOL-Library.Multiset"
begin

section \<open>Sigma-clipped image combination (notebook "Image combination")\<close>

text \<open>
  The notebook combines a stack \<open>bits\<close> of shape \<open>(N, P)\<close> (N images of P pixels each)
  with these cells:
  \<^verbatim>\<open>
  median = np.median(bits, axis=0)
  mad_sigma = mad_std(bits, axis=0)
  exclude = (bits - median) / mad_sigma > 10
  original_values = bits[exclude]
  bits[exclude] = np.nan
  clip_combine = np.nanmean(bits, axis=0)
  bits[exclude] = original_values
  \<close>
  The arithmetic is numpy's float64 arithmetic. A float64 is modelled as a real number, or
  one of the three special values of IEEE 754 that the cells rely on: dividing by a zero
  \<open>mad_sigma\<close> yields an infinity or NaN, every comparison with NaN is false, and NaN is
  the rejection sentinel that \<open>np.nanmean\<close> skips. A sum, product or quotient beyond the
  largest float64 overflows to an infinity. Rounding and underflow of the results in range
  are not modelled, and neither is the sign of zero: every divisor of the cells
  (\<open>mad_sigma\<close>, the 2 of a two-element mean, a count) is non-negative, so a zero divisor is
  \<open>+0\<close>. The threshold, the literal 10 of the notebook, is a parameter.
\<close>

subsection \<open>float64 values and their arithmetic\<close>

datatype npfloat = Fin real | PInf | NInf | NaN

fun fneg :: "npfloat \<Rightarrow> npfloat" where
  "fneg (Fin a) = Fin (- a)"
| "fneg PInf = NInf"
| "fneg NInf = PInf"
| "fneg NaN = NaN"

text \<open>
  The largest float64 is \<^verbatim>\<open>(2^53 - 1) * 2^971\<close>, about \<^verbatim>\<open>1.8e308\<close>; a result
  that lies beyond it overflows to the infinity of its sign.
\<close>

definition max_float :: real where
  "max_float = (2 ^ 53 - 1) * 2 ^ 971"

definition ovf :: "real \<Rightarrow> npfloat" where
  "ovf r = (if max_float < r then PInf else if r < - max_float then NInf else Fin r)"

fun fadd :: "npfloat \<Rightarrow> npfloat \<Rightarrow> npfloat" where
  "fadd NaN _ = NaN"
| "fadd _ NaN = NaN"
| "fadd (Fin a) (Fin b) = ovf (a + b)"
| "fadd PInf NInf = NaN"
| "fadd NInf PInf = NaN"
| "fadd PInf _ = PInf"
| "fadd NInf _ = NInf"
| "fadd (Fin a) b = b"

definition fsub :: "npfloat \<Rightarrow> npfloat \<Rightarrow> npfloat" where
  "fsub a b = fadd a (fneg b)"

fun fabs :: "npfloat \<Rightarrow> npfloat" where
  "fabs (Fin a) = Fin \<bar>a\<bar>"
| "fabs PInf = PInf"
| "fabs NInf = PInf"
| "fabs NaN = NaN"

fun fmul :: "npfloat \<Rightarrow> npfloat \<Rightarrow> npfloat" where
  "fmul NaN _ = NaN"
| "fmul _ NaN = NaN"
| "fmul (Fin a) (Fin b) = ovf (a * b)"
| "fmul (Fin a) PInf = (if a = 0 then NaN else if 0 < a then PInf else NInf)"
| "fmul (Fin a) NInf = (if a = 0 then NaN else if 0 < a then NInf else PInf)"
| "fmul PInf (Fin b) = (if b = 0 then NaN else if 0 < b then PInf else NInf)"
| "fmul NInf (Fin b) = (if b = 0 then NaN else if 0 < b then NInf else PInf)"
| "fmul PInf PInf = PInf"
| "fmul NInf NInf = PInf"
| "fmul PInf NInf = NInf"
| "fmul NInf PInf = NInf"

text \<open>Division; a zero divisor is \<open>+0\<close>: \<open>x / 0\<close> is an infinity of the sign of \<open>x\<close>, \<open>0 / 0\<close> is NaN.\<close>

fun fdiv :: "npfloat \<Rightarrow> npfloat \<Rightarrow> npfloat" where
  "fdiv NaN _ = NaN"
| "fdiv _ NaN = NaN"
| "fdiv (Fin a) (Fin b) =
     (if b \<noteq> 0 then ovf (a / b) else if a = 0 then NaN else if 0 < a then PInf else NInf)"
| "fdiv (Fin a) PInf = Fin 0"
| "fdiv (Fin a) NInf = Fin 0"
| "fdiv PInf (Fin b) = (if 0 \<le> b then PInf else NInf)"
| "fdiv NInf (Fin b) = (if 0 \<le> b then NInf else PInf)"
| "fdiv PInf _ = NaN"
| "fdiv NInf _ = NaN"

text \<open>The order in which numpy sorts: \<open>-inf\<close>, the finite values, \<open>+inf\<close>, and NaN last.\<close>

fun fkey :: "npfloat \<Rightarrow> nat \<times> real" where
  "fkey NInf = (0, 0)"
| "fkey (Fin a) = (1, a)"
| "fkey PInf = (2, 0)"
| "fkey NaN = (3, 0)"

text \<open>The comparison \<open>a > b\<close>: false as soon as one side is NaN.\<close>

definition fgt :: "npfloat \<Rightarrow> npfloat \<Rightarrow> bool" where
  "fgt a b = (a \<noteq> NaN \<and> b \<noteq> NaN \<and> fkey b < fkey a)"

definition flt :: "npfloat \<Rightarrow> npfloat \<Rightarrow> bool" where
  "flt a b = fgt b a"

definition fle :: "npfloat \<Rightarrow> npfloat \<Rightarrow> bool" where
  "fle a b = (a \<noteq> NaN \<and> b \<noteq> NaN \<and> fkey a \<le> fkey b)"

fun is_fin :: "npfloat \<Rightarrow> bool" where
  "is_fin (Fin a) = True"
| "is_fin _ = False"

fun the_fin :: "npfloat \<Rightarrow> real" where
  "the_fin (Fin a) = a"
| "the_fin _ = 0"

subsection \<open>The stack\<close>

text \<open>
  \<open>bits\<close> is one array of shape \<open>(N, P)\<close>: \<open>images\<close> are its N rows and \<open>width\<close> is P, which
  the array has also when it has no row. A numpy array is rectangular: \<open>wf_stack\<close>.
\<close>

record stack =
  width :: nat
  images :: "npfloat list list"

definition wf_stack :: "stack \<Rightarrow> bool" where
  "wf_stack s = list_all (\<lambda>img. length img = width s) (images s)"


text \<open>The N samples of pixel \<open>p\<close>: \<open>bits[:, p]\<close>.\<close>

definition col :: "stack \<Rightarrow> nat \<Rightarrow> npfloat list" where
  "col s p = map (\<lambda>img. img ! p) (images s)"

subsection \<open>The reductions along the stacking axis\<close>

text \<open>
  \<open>np.median\<close> of one pixel's samples: NaN for no sample at all (the mean of an empty
  slice) and whenever a sample is NaN; otherwise the middle element of the sorted samples,
  or the mean of the two middle elements when their number is even.
\<close>

definition median1 :: "npfloat list \<Rightarrow> npfloat" where
  "median1 xs =
     (if xs = [] \<or> NaN \<in> set xs then NaN
      else let s = sort_key fkey xs; n = length xs in
        if odd n then s ! (n div 2)
        else fdiv (fadd (s ! (n div 2 - 1)) (s ! (n div 2))) (Fin 2))"

text \<open>
  \<open>mad_std\<close> (astropy): the median of the absolute deviations from the median, times the
  factor that turns it into a standard deviation for Gaussian data. astropy multiplies by
  1.482602218505602, which the text of the notebook rounds to 1.4826.
\<close>

definition mad_factor :: real where
  "mad_factor = 1.482602218505602"

definition mad_std1 :: "npfloat list \<Rightarrow> npfloat" where
  "mad_std1 xs =
     fmul (median1 (map (\<lambda>x. fabs (fsub x (median1 xs))) xs)) (Fin mad_factor)"

definition median_axis0 :: "stack \<Rightarrow> npfloat list" where
  "median_axis0 s = map (\<lambda>p. median1 (col s p)) [0..<width s]"

definition mad_std_axis0 :: "stack \<Rightarrow> npfloat list" where
  "mad_std_axis0 s = map (\<lambda>p. mad_std1 (col s p)) [0..<width s]"

text \<open>
  \<open>np.nanmean\<close> of one pixel's samples: the NaN are replaced by 0, the samples are added
  up image after image, and the sum is divided by the number of samples that are not NaN;
  with none left this is \<open>0 / 0\<close>, NaN.
\<close>

definition fsum :: "npfloat list \<Rightarrow> npfloat" where
  "fsum xs = foldl fadd (Fin 0) xs"

definition nanmean1 :: "npfloat list \<Rightarrow> npfloat" where
  "nanmean1 xs =
     fdiv (fsum (map (\<lambda>x. if x = NaN then Fin 0 else x) xs))
          (Fin (real (length (filter (\<lambda>x. x \<noteq> NaN) xs))))"

definition nanmean_axis0 :: "stack \<Rightarrow> npfloat list" where
  "nanmean_axis0 s = map (\<lambda>p. nanmean1 (col s p)) [0..<width s]"

subsection \<open>The rejection mask\<close>

text \<open>
  \<open>exclude = (bits - median) / mad_sigma > clip\<close>, the median and the scale broadcast
  along the rows.
\<close>

definition exclude :: "real \<Rightarrow> stack \<Rightarrow> bool list list" where
  "exclude clip s =
     (let median = median_axis0 s; mad_sigma = mad_std_axis0 s in
      map (\<lambda>img. map (\<lambda>p. fgt (fdiv (fsub (img ! p) (median ! p)) (mad_sigma ! p)) (Fin clip))
                      [0..<width s])
          (images s))"

text \<open>
  The rule for one sample \<open>x\<close> of a pixel with samples \<open>xs\<close>, as the text of the notebook
  states it: \<open>x\<close> lies more than \<open>clip\<close> robust standard deviations above the median.
\<close>

definition clip_rule :: "real \<Rightarrow> npfloat list \<Rightarrow> npfloat \<Rightarrow> bool" where
  "clip_rule clip xs x = fgt (fdiv (fsub x (median1 xs)) (mad_std1 xs)) (Fin clip)"

subsection \<open>Masked assignment and the clipped mean\<close>

text \<open>\<open>bits[exclude] = v\<close> for a scalar \<open>v\<close>: the entries under a true mask entry become \<open>v\<close>.\<close>

definition set_mask :: "stack \<Rightarrow> bool list list \<Rightarrow> npfloat \<Rightarrow> stack" where
  "set_mask s ex v =
     s\<lparr>images := map2 (\<lambda>img m. map2 (\<lambda>x b. if b then v else x) img m) (images s) ex\<rparr>"

text \<open>\<open>bits[exclude]\<close>: a new one-dimensional array of the selected entries, row by row.\<close>

definition select_row :: "npfloat list \<Rightarrow> bool list \<Rightarrow> npfloat list" where
  "select_row img m = map fst (filter snd (zip img m))"

definition select :: "stack \<Rightarrow> bool list list \<Rightarrow> npfloat list" where
  "select s ex = concat (map2 select_row (images s) ex)"

text \<open>
  \<open>clip_combine = np.nanmean(bits, axis=0)\<close>, evaluated while the rejected entries of
  \<open>bits\<close> are NaN.
\<close>

definition clip_combine :: "real \<Rightarrow> stack \<Rightarrow> npfloat list" where
  "clip_combine clip s = nanmean_axis0 (set_mask s (exclude clip s) NaN)"

subsection \<open>The cells as a program on array objects\<close>

text \<open>
  A numpy array is an object. \<open>bits[exclude] = ...\<close> writes into the array that \<open>bits\<close>
  names; \<open>np.median\<close>, \<open>mad_std\<close>, the arithmetic and the comparison, \<open>bits[exclude]\<close>
  read as an expression, and \<open>np.nanmean\<close> each return a new array. The heap is the list
  of the arrays made so far, an address is an index into it, and a new array goes to its end.
\<close>

datatype array = Float2 stack | Float1 "npfloat list" | Bool2 "bool list list"

type_synonym heap = "array list"

type_synonym addr = nat

text \<open>
  The exceptions of Python and numpy that the cells can meet. \<open>NotModelled\<close> is no
  exception: it marks an object that is not a two-dimensional array of floats, on which
  this model does not say what the cells do.
\<close>

datatype error = NameError | IndexError | ValueError | NotModelled

definition new_array :: "array \<Rightarrow> heap \<Rightarrow> addr \<times> heap" where
  "new_array a h = (length h, h @ [a])"

text \<open>The stack at an address; a name that is bound to no object raises.\<close>

definition float2_at :: "heap \<Rightarrow> addr \<Rightarrow> error + stack" where
  "float2_at h a =
     (if a < length h then (case h ! a of Float2 s \<Rightarrow> Inr s | _ \<Rightarrow> Inl NotModelled)
      else Inl NameError)"

text \<open>A boolean index must have the shape of the array it indexes.\<close>

definition same_shape :: "stack \<Rightarrow> bool list list \<Rightarrow> bool" where
  "same_shape s ex = (length ex = length (images s) \<and> list_all (\<lambda>m. length m = width s) ex)"

definition count_true :: "bool list list \<Rightarrow> nat" where
  "count_true ex = length (filter (\<lambda>b. b) (concat ex))"

text \<open>
  \<open>bits[exclude] = values\<close> for a one-dimensional array of values: the entries under a
  true mask entry take the values in turn, row by row. numpy raises unless there are as
  many values as true entries, or just one value, which then goes to every true entry.
\<close>

fun put_row :: "npfloat list \<Rightarrow> bool list \<Rightarrow> npfloat list \<Rightarrow> npfloat list \<times> npfloat list" where
  "put_row (x # xs) (True # bs) (v # vs) = (let (r, rest) = put_row xs bs vs in (v # r, rest))"
| "put_row (x # xs) (False # bs) vs = (let (r, rest) = put_row xs bs vs in (x # r, rest))"
| "put_row xs _ vs = (xs, vs)"

fun put_rows :: "npfloat list list \<Rightarrow> bool list list \<Rightarrow> npfloat list \<Rightarrow> npfloat list list" where
  "put_rows (img # imgs) (m # ms) vs =
     (let (r, rest) = put_row img m vs in r # put_rows imgs ms rest)"
| "put_rows imgs _ vs = imgs"

definition assign_mask :: "stack \<Rightarrow> bool list list \<Rightarrow> npfloat list \<Rightarrow> error + stack" where
  "assign_mask s ex vs =
     (if \<not> same_shape s ex then Inl IndexError
      else if length vs = count_true ex then Inr (s\<lparr>images := put_rows (images s) ex vs\<rparr>)
      else if length vs = 1 then Inr (set_mask s ex (hd vs))
      else Inl ValueError)"

text \<open>
  The cells, run on a heap in which \<open>bits\<close> is the address of the stack. The result is the
  address of the array \<open>clip_combine\<close> and the heap the cells leave behind.

  The first cell, \<open>np.median\<close>, turns its argument into an array before anything else. A
  stack that is not rectangular stands for a sequence of images of differing shapes, which
  numpy refuses to turn into an array: the first cell raises ValueError, before any
  computation, and nothing has been allocated or written.
\<close>

definition combine_cells :: "real \<Rightarrow> addr \<Rightarrow> heap \<Rightarrow> error + (addr \<times> heap)" where
  "combine_cells clip bits h0 =
     (case float2_at h0 bits of
        Inl e \<Rightarrow> Inl e
      | Inr b0 \<Rightarrow>
          if \<not> wf_stack b0 then Inl ValueError else
          let (median, h1) = new_array (Float1 (median_axis0 b0)) h0;
              (mad_sigma, h2) = new_array (Float1 (mad_std_axis0 b0)) h1;
              ex = exclude clip b0;
              (excl, h3) = new_array (Bool2 ex) h2;
              vals = select b0 ex;
              (original_values, h4) = new_array (Float1 vals) h3;
              b1 = set_mask b0 ex NaN;
              h5 = h4[bits := Float2 b1];
              (combined, h6) = new_array (Float1 (nanmean_axis0 b1)) h5
          in (case assign_mask b1 ex vals of
                Inl e \<Rightarrow> Inl e
              | Inr b2 \<Rightarrow> Inr (combined, h6[bits := Float2 b2])))"

subsection \<open>Signs, and sums that stay in range\<close>

text \<open>A value that is not below zero: a scale estimate is never negative.\<close>

fun not_negative :: "npfloat \<Rightarrow> bool" where
  "not_negative (Fin a) = (0 \<le> a)"
| "not_negative NInf = False"
| "not_negative _ = True"

text \<open>
  \<open>fits n x\<close>: \<open>n\<close> copies of the value \<open>x\<close> add up without overflow. \<open>abs_sum xs\<close>: the sum
  of the magnitudes of the finite samples \<open>xs\<close>; when it is at most the largest float64, no
  partial sum of the samples overflows, in whatever order they are added.
\<close>

fun fits :: "nat \<Rightarrow> npfloat \<Rightarrow> bool" where
  "fits n (Fin v) = (real n * \<bar>v\<bar> \<le> max_float)"
| "fits n _ = True"

definition abs_sum :: "npfloat list \<Rightarrow> real" where
  "abs_sum xs = sum_list (map (\<lambda>x. \<bar>the_fin x\<bar>) xs)"

subsection \<open>The pixels of a stack seen one at a time\<close>

text \<open>\<open>exclude[:, p]\<close> as the indices of the rejected and of the surviving samples of pixel \<open>p\<close>.\<close>

definition rejected :: "real \<Rightarrow> stack \<Rightarrow> nat \<Rightarrow> nat list" where
  "rejected clip s p = filter (\<lambda>n. exclude clip s ! n ! p) [0..<length (images s)]"

definition survivors :: "real \<Rightarrow> stack \<Rightarrow> nat \<Rightarrow> nat list" where
  "survivors clip s p = filter (\<lambda>n. \<not> exclude clip s ! n ! p) [0..<length (images s)]"

subsection \<open>Example stacks\<close>

text \<open>
  Five images of two pixels. Pixel 0 has the samples -1000, 1, 2, 3, 1000: median 2,
  median absolute deviation 1. Pixel 1 has the samples 1, 1, 1, 1, 5: median 1, median
  absolute deviation 0.
\<close>

definition five_images :: stack where
  "five_images =
     \<lparr>width = 2,
      images = [[Fin (- 1000), Fin 1], [Fin 1, Fin 1], [Fin 2, Fin 1], [Fin 3, Fin 1],
                [Fin 1000, Fin 5]]\<rparr>"

text \<open>Three identical images of two pixels.\<close>

definition three_alike :: stack where
  "three_alike = \<lparr>width = 2, images = replicate 3 [Fin 7, Fin 9]\<rparr>"

text \<open>Two images of one pixel with the samples 1 and 3, and one image whose only pixel is NaN.\<close>

definition two_images :: stack where
  "two_images = \<lparr>width = 1, images = [[Fin 1], [Fin 3]]\<rparr>"



text \<open>
  Twenty constant images of \<open>P\<close> pixels with the value 100, pixel \<open>p\<close> of image \<open>k\<close> set
  to 10000.
\<close>

definition outlier_stack :: "nat \<Rightarrow> nat \<Rightarrow> nat \<Rightarrow> stack" where
  "outlier_stack P k p =
     \<lparr>width = P,
      images = (replicate 20 (replicate P (Fin 100)))[k := (replicate P (Fin 100))[p := Fin 10000]]\<rparr>"

text \<open>
  Two and three identical images of one pixel with the value \<^verbatim>\<open>2^1023\<close>, a float64 whose
  double is beyond the largest float64.
\<close>

definition huge_pair :: stack where
  "huge_pair = \<lparr>width = 1, images = replicate 2 [Fin (2 ^ 1023)]\<rparr>"



section \<open>Properties\<close>

subsection \<open>Indexing the arrays\<close>

lemma width_set_mask [simp]: "width (set_mask s m v) = width s"
  by (simp add: set_mask_def)

lemma median_axis0_nth [simp]: "p < width s \<Longrightarrow> median_axis0 s ! p = median1 (col s p)"
  by (simp add: median_axis0_def)

lemma mad_std_axis0_nth [simp]: "p < width s \<Longrightarrow> mad_std_axis0 s ! p = mad_std1 (col s p)"
  by (simp add: mad_std_axis0_def)

lemma col_nth [simp]: "n < length (images s) \<Longrightarrow> col s p ! n = images s ! n ! p"
  by (simp add: col_def)

lemma length_col [simp]: "length (col s p) = length (images s)"
  by (simp add: col_def)

lemma exclude_nth:
  "n < length (images s) \<Longrightarrow> p < width s \<Longrightarrow>
   exclude clip s ! n ! p = clip_rule clip (col s p) (images s ! n ! p)"
  by (simp add: exclude_def clip_rule_def)

lemma length_exclude [simp]: "length (exclude clip s) = length (images s)"
  by (simp add: exclude_def)

lemma length_exclude_row [simp]:
  "n < length (images s) \<Longrightarrow> length (exclude clip s ! n) = width s"
  by (simp add: exclude_def)

lemma col_masked:
  assumes "wf_stack s" "p < width s"
  shows "col (set_mask s (exclude clip s) NaN) p
         = map (\<lambda>x. if clip_rule clip (col s p) x then NaN else x) (col s p)"
proof (rule nth_equalityI)
  show "length (col (set_mask s (exclude clip s) NaN) p)
        = length (map (\<lambda>x. if clip_rule clip (col s p) x then NaN else x) (col s p))"
    by (simp add: col_def set_mask_def)
next
  fix n assume "n < length (col (set_mask s (exclude clip s) NaN) p)"
  then have n: "n < length (images s)"
    by (simp add: col_def set_mask_def)
  with assms have len: "length (images s ! n) = width s"
    by (simp add: wf_stack_def list_all_length)
  from n assms len
  show "col (set_mask s (exclude clip s) NaN) p ! n
        = map (\<lambda>x. if clip_rule clip (col s p) x then NaN else x) (col s p) ! n"
    by (simp add: col_def set_mask_def exclude_nth [unfolded col_def])
qed

lemma clip_combine_nth:
  assumes "wf_stack s" "p < width s"
  shows "clip_combine clip s ! p
         = nanmean1 (map (\<lambda>x. if clip_rule clip (col s p) x then NaN else x) (col s p))"
  using assms by (simp add: clip_combine_def nanmean_axis0_def col_masked)


subsection \<open>Overflow\<close>

lemma max_float_pos: "0 < max_float"
  by (simp add: max_float_def)

lemma max_float_signs [simp]:
  "0 \<le> max_float" "\<not> max_float < 0" "\<not> max_float \<le> 0" "- max_float < 0" "- max_float \<le> 0"
  using max_float_pos by linarith+

lemma ovf_in_range: "\<bar>r\<bar> \<le> max_float \<Longrightarrow> ovf r = Fin r"
  by (auto simp: ovf_def)

lemma ovf_not_NaN [simp]: "ovf r \<noteq> NaN"
  by (simp add: ovf_def)

lemma ovf_zero [simp]: "ovf 0 = Fin 0"
  by (simp add: ovf_def)

lemma not_negative_ovf: "0 \<le> r \<Longrightarrow> not_negative (ovf r)"
  by (auto simp: ovf_def)

lemma fadd_NaN_right [simp]: "fadd x NaN = NaN"
  by (cases x) simp_all

lemma fdiv_NaN_right [simp]: "fdiv x NaN = NaN"
  by (cases x) simp_all

lemma fgt_NaN [simp]: "\<not> fgt NaN y"
  by (simp add: fgt_def)

subsection \<open>The scale is never negative, so rejection is one-sided\<close>

lemma not_negative_fabs: "not_negative (fabs x)"
  by (cases x) simp_all

lemma not_negative_half: "not_negative a \<Longrightarrow> not_negative (fdiv a (Fin 2))"
  by (cases a) (simp_all add: not_negative_ovf)

lemma not_negative_fadd: "not_negative a \<Longrightarrow> not_negative b \<Longrightarrow> not_negative (fadd a b)"
  by (cases a; cases b) (simp_all add: not_negative_ovf)

lemma not_negative_mean2:
  "not_negative a \<Longrightarrow> not_negative b \<Longrightarrow> not_negative (fdiv (fadd a b) (Fin 2))"
  by (intro not_negative_half not_negative_fadd)

lemma sorted_nth_mem: "i < length xs \<Longrightarrow> sort_key fkey xs ! i \<in> set xs"
  by (metis length_sort nth_mem set_sort)

lemma median1_odd:
  "xs \<noteq> [] \<Longrightarrow> NaN \<notin> set xs \<Longrightarrow> odd (length xs) \<Longrightarrow>
   median1 xs = sort_key fkey xs ! (length xs div 2)"
  by (simp add: median1_def)

lemma median1_even:
  "xs \<noteq> [] \<Longrightarrow> NaN \<notin> set xs \<Longrightarrow> even (length xs) \<Longrightarrow>
   median1 xs = fdiv (fadd (sort_key fkey xs ! (length xs div 2 - 1))
                           (sort_key fkey xs ! (length xs div 2))) (Fin 2)"
  by (simp add: median1_def Let_def)

lemma median1_NaN: "xs = [] \<or> NaN \<in> set xs \<Longrightarrow> median1 xs = NaN"
  by (simp add: median1_def)

lemma not_negative_median1:
  assumes "\<forall>x\<in>set xs. not_negative x"
  shows "not_negative (median1 xs)"
proof (cases "xs = [] \<or> NaN \<in> set xs")
  case True
  then show ?thesis by (simp add: median1_def)
next
  case False
  then have pos: "0 < length xs" by simp
  have mem: "\<And>i. i < length xs \<Longrightarrow> not_negative (sort_key fkey xs ! i)"
    using assms sorted_nth_mem by blast
  show ?thesis
  proof (cases "odd (length xs)")
    case True
    with False pos mem show ?thesis by (simp add: median1_odd)
  next
    case even: False
    have "length xs div 2 - 1 < length xs" "length xs div 2 < length xs"
      using pos by arith+
    then have "not_negative (fdiv (fadd (sort_key fkey xs ! (length xs div 2 - 1))
                                      (sort_key fkey xs ! (length xs div 2))) (Fin 2))"
      by (intro not_negative_mean2 mem)
    with False even show ?thesis by (simp add: median1_even)
  qed
qed

lemma mad_factor_pos: "0 < mad_factor"
  by (simp add: mad_factor_def)

lemma not_negative_scale: "0 < k \<Longrightarrow> not_negative a \<Longrightarrow> not_negative (fmul a (Fin k))"
  by (cases a) (simp_all add: not_negative_ovf)

lemma not_negative_mad_std1: "not_negative (mad_std1 xs)"
  unfolding mad_std1_def
  by (intro not_negative_scale mad_factor_pos not_negative_median1) (simp add: not_negative_fabs)

text \<open>The difference of two floats has the sign of the exact difference, overflow or not.\<close>

lemma in_range_or_overflow:
  "ovf r = Fin r \<or> (ovf r = PInf \<and> 0 < r) \<or> (ovf r = NInf \<and> r < 0)"
  using max_float_pos by (auto simp: ovf_def)

lemma fsub_Fin_cases:
  obtains (less) "a < b" "fsub (Fin a) (Fin b) = NInf \<or> fsub (Fin a) (Fin b) = Fin (a - b)"
  | (equal) "a = b" "fsub (Fin a) (Fin b) = Fin 0"
  | (greater) "b < a" "fsub (Fin a) (Fin b) = PInf \<or> fsub (Fin a) (Fin b) = Fin (a - b)"
proof (cases a b rule: linorder_cases)
  case less
  then have "fsub (Fin a) (Fin b) = NInf \<or> fsub (Fin a) (Fin b) = Fin (a - b)"
    using in_range_or_overflow [of "a - b"] by (auto simp: fsub_def)
  with less show ?thesis by (rule that(1))
next
  case equal
  then show ?thesis by (intro that(2)) (simp_all add: fsub_def)
next
  case greater
  then have "fsub (Fin a) (Fin b) = PInf \<or> fsub (Fin a) (Fin b) = Fin (a - b)"
    using in_range_or_overflow [of "a - b"] by (auto simp: fsub_def)
  with greater show ?thesis by (rule that(3))
qed

lemma quotient_not_above:
  assumes "not_negative sg" and "0 \<le> c" and "d \<le> 0"
  shows "\<not> fgt (fdiv (Fin d) sg) (Fin c)"
proof (cases sg)
  case (Fin s)
  with assms(1) have s: "0 \<le> s" by simp
  show ?thesis
  proof (cases "s = 0")
    case True
    with Fin assms(3) show ?thesis by (simp add: fgt_def)
  next
    case False
    with s assms(3) have "d / s \<le> 0" by (simp add: divide_nonpos_pos)
    then have "ovf (d / s) = NInf \<or> ovf (d / s) = Fin (d / s)"
      using in_range_or_overflow [of "d / s"] by auto
    with Fin False \<open>d / s \<le> 0\<close> assms(2) show ?thesis
      by (auto simp: fgt_def)
  qed
qed (use assms in \<open>simp_all add: fgt_def\<close>)

lemma quotient_above:
  assumes "not_negative sg" "0 \<le> c" "fgt (fdiv (fsub x m) sg) (Fin c)"
  shows "flt m x"
proof (cases x)
  case x: (Fin a)
  show ?thesis
  proof (cases m)
    case m: (Fin b)
    show ?thesis
    proof (cases a b rule: fsub_Fin_cases)
      case less
      from less(2) show ?thesis
      proof
        assume "fsub (Fin a) (Fin b) = NInf"
        with assms x m show ?thesis by (cases sg) (simp_all add: fgt_def split: if_splits)
      next
        assume "fsub (Fin a) (Fin b) = Fin (a - b)"
        moreover have "\<not> fgt (fdiv (Fin (a - b)) sg) (Fin c)"
          using assms(1,2) less(1) by (intro quotient_not_above) simp_all
        ultimately show ?thesis using assms(3) x m by simp
      qed
    next
      case equal
      moreover have "\<not> fgt (fdiv (Fin 0) sg) (Fin c)"
        using assms(1,2) by (intro quotient_not_above) simp_all
      ultimately show ?thesis using assms(3) x m by simp
    next
      case greater
      with x m show ?thesis by (simp add: flt_def fgt_def)
    qed
  next
    case PInf
    with assms x show ?thesis
      by (cases sg) (simp_all add: fsub_def fgt_def split: if_splits)
  next
    case NInf
    with x show ?thesis by (simp add: flt_def fgt_def)
  next
    case NaN
    with assms x show ?thesis by (simp add: fsub_def)
  qed
next
  case PInf
  with assms show ?thesis
    by (cases m) (simp_all add: fsub_def flt_def fgt_def)
next
  case NInf
  with assms show ?thesis
    by (cases m; cases sg) (simp_all add: fsub_def flt_def fgt_def split: if_splits)
next
  case NaN
  with assms show ?thesis by (simp add: fsub_def)
qed

lemma clip_rule_above: "0 \<le> c \<Longrightarrow> clip_rule c xs x \<Longrightarrow> flt (median1 xs) x"
  unfolding clip_rule_def using quotient_above not_negative_mad_std1 by blast

lemma quotient_zero_scale:
  assumes "flt m x"
  shows "fdiv (fsub x m) (Fin 0) = PInf"
proof (cases x)
  case x: (Fin a)
  show ?thesis
  proof (cases m)
    case m: (Fin b)
    with assms x have "b < a" by (simp add: flt_def fgt_def)
    then have "fsub (Fin a) (Fin b) = PInf \<or> fsub (Fin a) (Fin b) = Fin (a - b)"
      by (cases a b rule: fsub_Fin_cases) simp_all
    with \<open>b < a\<close> x m show ?thesis by auto
  qed (use assms x in \<open>simp_all add: flt_def fgt_def fsub_def\<close>)
qed (use assms in \<open>cases m; simp_all add: flt_def fgt_def fsub_def\<close>)+

lemma fgt_mono: "c1 \<le> c2 \<Longrightarrow> fgt q (Fin c2) \<Longrightarrow> fgt q (Fin c1)"
  by (cases q) (auto simp: fgt_def)

subsection \<open>The median of equal samples\<close>

lemma sort_key_replicate: "sort_key fkey (replicate n x) = replicate n x"
  by (rule sort_key_id_if_sorted) simp

lemma median1_replicate_mean:
  assumes "0 < n" and "x \<noteq> NaN"
  shows "median1 (replicate n x) = (if odd n then x else fdiv (fadd x x) (Fin 2))"
proof -
  from assms(1) have idx: "n div 2 < n" "n div 2 - 1 < n" by arith+
  from assms have ne: "replicate n x \<noteq> []" "NaN \<notin> set (replicate n x)"
    by auto
  show ?thesis
  proof (cases "odd n")
    case True
    with ne idx show ?thesis
      by (simp add: median1_odd sort_key_replicate)
  next
    case False
    with ne idx show ?thesis
      by (simp add: median1_even sort_key_replicate)
  qed
qed

lemma median1_replicate_PInf: "0 < n \<Longrightarrow> median1 (replicate n PInf) = PInf"
  by (simp add: median1_replicate_mean)

subsection \<open>The lower half of the sorted samples\<close>

lemma sorted_key_nth:
  assumes "i \<le> j" "j < length xs"
  shows "fkey (sort_key fkey xs ! i) \<le> fkey (sort_key fkey xs ! j)"
proof -
  have "sorted (map fkey (sort_key fkey xs))" by (rule sorted_sort_key)
  then have "map fkey (sort_key fkey xs) ! i \<le> map fkey (sort_key fkey xs) ! j"
    using assms by (intro sorted_nth_mono) simp_all
  with assms show ?thesis by simp
qed

text \<open>
  The mean of two samples lies at or above the smaller one, unless the sum overflows to
  \<open>-inf\<close> or is the NaN of \<open>-inf + inf\<close>.
\<close>

lemma half_in_range:
  assumes "ovf r = Fin r"
  shows "ovf (r / 2) = Fin (r / 2)"
proof -
  from assms have "\<bar>r\<bar> \<le> max_float"
    by (auto simp: ovf_def split: if_splits)
  then have "\<bar>r / 2\<bar> \<le> max_float" by simp
  then show ?thesis by (rule ovf_in_range)
qed

lemma mean2_Fin:
  assumes "a \<le> b"
  shows "fdiv (fadd (Fin a) (Fin b)) (Fin 2) = NInf
         \<or> fkey (Fin a) \<le> fkey (fdiv (fadd (Fin a) (Fin b)) (Fin 2))"
  using in_range_or_overflow [of "a + b"]
proof (elim disjE conjE)
  assume r: "ovf (a + b) = Fin (a + b)"
  from assms have "a \<le> (a + b) / 2" by simp
  with r half_in_range [OF r] show ?thesis by simp
qed simp_all

lemma mean2_ge:
  assumes "a \<noteq> NaN" "b \<noteq> NaN" "fkey a \<le> fkey b"
  shows "fdiv (fadd a b) (Fin 2) = NaN \<or> fdiv (fadd a b) (Fin 2) = NInf
         \<or> fkey a \<le> fkey (fdiv (fadd a b) (Fin 2))"
proof (cases a)
  case a: (Fin x)
  show ?thesis
  proof (cases b)
    case (Fin y)
    with a assms(3) have "x \<le> y" by simp
    from mean2_Fin [OF this] a Fin show ?thesis by blast
  qed (use assms a in simp_all)
qed (use assms in \<open>cases b; simp_all\<close>)+

lemma lower_half_le_median:
  assumes "NaN \<notin> set xs" "2 * i < length xs"
  shows "median1 xs = NaN \<or> median1 xs = NInf
         \<or> fkey (sort_key fkey xs ! i) \<le> fkey (median1 xs)"
proof -
  from assms have ne: "xs \<noteq> []" by auto
  show ?thesis
  proof (cases "odd (length xs)")
    case True
    have "i \<le> length xs div 2" "length xs div 2 < length xs"
      using assms(2) by arith+
    then have "fkey (sort_key fkey xs ! i) \<le> fkey (sort_key fkey xs ! (length xs div 2))"
      by (rule sorted_key_nth)
    with ne assms(1) True show ?thesis by (simp add: median1_odd)
  next
    case False
    let ?a = "sort_key fkey xs ! (length xs div 2 - 1)"
    let ?b = "sort_key fkey xs ! (length xs div 2)"
    let ?m = "fdiv (fadd ?a ?b) (Fin 2)"
    have idx: "i \<le> length xs div 2 - 1" "length xs div 2 - 1 < length xs"
      "length xs div 2 - 1 \<le> length xs div 2" "length xs div 2 < length xs"
      using assms(2) False by (auto elim!: evenE)
    have ia: "fkey (sort_key fkey xs ! i) \<le> fkey ?a"
      using idx(1,2) by (rule sorted_key_nth)
    have ab: "fkey ?a \<le> fkey ?b"
      using idx(3,4) by (rule sorted_key_nth)
    have "?a \<in> set xs" "?b \<in> set xs"
      using idx(2,4) by (simp_all add: sorted_nth_mem)
    with assms(1) have "?a \<noteq> NaN" "?b \<noteq> NaN" by auto
    from mean2_ge [OF this ab] ia
    have "?m = NaN \<or> ?m = NInf \<or> fkey (sort_key fkey xs ! i) \<le> fkey ?m"
      by auto
    moreover have "median1 xs = ?m"
      using ne assms(1) False by (simp add: median1_even)
    ultimately show ?thesis by simp
  qed
qed

subsection \<open>A median that is NaN or \<open>-inf\<close> rejects nothing\<close>

lemma clip_rule_median_NaN: "median1 xs = NaN \<Longrightarrow> \<not> clip_rule c xs x"
  by (simp add: clip_rule_def fsub_def)

lemma fsub_NInf: "x \<noteq> NaN \<Longrightarrow> x \<noteq> NInf \<Longrightarrow> fsub x NInf = PInf"
  by (cases x) (simp_all add: fsub_def)

lemma quotient_inf_inf: "fdiv (fsub x NInf) PInf = NaN"
  by (cases x) (simp_all add: fsub_def)

lemma clip_rule_median_NInf:
  assumes "median1 xs = NInf"
  shows "\<not> clip_rule c xs x"
proof (cases "NInf \<in> set xs")
  case True
  then have "fabs (fsub NInf NInf) \<in> set (map (\<lambda>y. fabs (fsub y NInf)) xs)"
    by auto
  then have "NaN \<in> set (map (\<lambda>y. fabs (fsub y NInf)) xs)"
    by (simp add: fsub_def)
  then have "mad_std1 xs = NaN"
    by (simp add: mad_std1_def assms median1_NaN)
  then show ?thesis by (simp add: clip_rule_def)
next
  case False
  from assms have ne: "xs \<noteq> []" and nan: "NaN \<notin> set xs"
    by (auto simp: median1_def split: if_splits)
  have "map (\<lambda>y. fabs (fsub y NInf)) xs = map (\<lambda>y. PInf) xs"
  proof (rule map_cong [OF refl])
    fix y assume "y \<in> set xs"
    with False nan have "y \<noteq> NaN" "y \<noteq> NInf" by auto
    then show "fabs (fsub y NInf) = PInf" by (simp add: fsub_NInf)
  qed
  then have "map (\<lambda>y. fabs (fsub y NInf)) xs = replicate (length xs) PInf"
    by (simp add: map_replicate_const)
  moreover have "0 < length xs" using ne by simp
  ultimately have "mad_std1 xs = PInf"
    using mad_factor_pos by (simp add: mad_std1_def assms median1_replicate_PInf)
  then show ?thesis
    by (simp add: clip_rule_def assms quotient_inf_inf)
qed

lemma lower_half_kept:
  assumes "0 \<le> c" and "NaN \<notin> set xs" and "2 * i < length xs"
  shows "\<not> clip_rule c xs (sort_key fkey xs ! i)"
  using lower_half_le_median [OF assms(2,3)]
proof (elim disjE)
  assume "fkey (sort_key fkey xs ! i) \<le> fkey (median1 xs)"
  then have "\<not> flt (median1 xs) (sort_key fkey xs ! i)"
    by (auto simp: flt_def fgt_def)
  with assms(1) show ?thesis using clip_rule_above by blast
qed (simp_all add: clip_rule_median_NaN clip_rule_median_NInf)

lemma flt_asym: "flt a b \<Longrightarrow> \<not> flt b a"
  by (auto simp: flt_def fgt_def)

lemma rejected_iff:
  "p < width s \<Longrightarrow>
   n \<in> set (rejected clip s p) \<longleftrightarrow>
     n < length (images s) \<and> clip_rule clip (col s p) (images s ! n ! p)"
  by (auto simp: rejected_def exclude_nth)

lemma survivors_iff:
  "p < width s \<Longrightarrow>
   n \<in> set (survivors clip s p) \<longleftrightarrow>
     n < length (images s) \<and> \<not> clip_rule clip (col s p) (images s ! n ! p)"
  by (auto simp: survivors_def exclude_nth)

subsection \<open>Identical samples\<close>

lemma fits_range: "0 < n \<Longrightarrow> fits n (Fin v) \<Longrightarrow> \<bar>v\<bar> \<le> max_float"
proof -
  assume n: "0 < n" and f: "fits n (Fin v)"
  from n have "1 \<le> real n" by simp
  then have "1 * \<bar>v\<bar> \<le> real n * \<bar>v\<bar>"
    by (intro mult_right_mono) simp_all
  with f show ?thesis by simp
qed

lemma fits_mono: "m \<le> n \<Longrightarrow> fits n x \<Longrightarrow> fits m x"
proof (cases x)
  case (Fin v)
  assume mn: "m \<le> n" and f: "fits n x"
  from mn have "real m * \<bar>v\<bar> \<le> real n * \<bar>v\<bar>"
    by (intro mult_right_mono) simp_all
  with f Fin show ?thesis by simp
qed simp_all

lemma mean2_same:
  assumes "x \<noteq> NaN" and "fits 2 x"
  shows "fdiv (fadd x x) (Fin 2) = x"
proof (cases x)
  case (Fin v)
  with assms(2) have "\<bar>v + v\<bar> \<le> max_float" by simp
  then have "ovf (v + v) = Fin (v + v)" by (rule ovf_in_range)
  moreover from this have "ovf ((v + v) / 2) = Fin ((v + v) / 2)" by (rule half_in_range)
  ultimately show ?thesis using Fin by simp
qed (use assms in simp_all)

lemma median1_replicate:
  assumes "0 < n" and "odd n \<or> fits 2 x"
  shows "median1 (replicate n x) = x"
proof (cases "x = NaN")
  case True
  with assms(1) show ?thesis by (simp add: median1_NaN)
next
  case False
  with assms show ?thesis
    by (auto simp: median1_replicate_mean mean2_same)
qed

lemma mean2_same_cases:
  "fdiv (fadd x x) (Fin 2) = x \<or> fdiv (fadd x x) (Fin 2) = PInf
   \<or> fdiv (fadd x x) (Fin 2) = NInf"
proof (cases x)
  case (Fin v)
  from in_range_or_overflow [of "v + v"] show ?thesis
  proof (elim disjE conjE)
    assume r: "ovf (v + v) = Fin (v + v)"
    from half_in_range [OF r] r Fin show ?thesis by simp
  qed (simp_all add: Fin)
qed simp_all

lemma median1_replicate_cases:
  assumes "0 < n"
  shows "median1 (replicate n x) = x \<or> median1 (replicate n x) = PInf
         \<or> median1 (replicate n x) = NInf"
proof (cases "x = NaN")
  case True
  with assms show ?thesis by (simp add: median1_NaN)
next
  case False
  with assms mean2_same_cases [of x] show ?thesis
    by (simp add: median1_replicate_mean)
qed

lemma clip_rule_median_PInf:
  assumes "median1 xs = PInf"
  shows "\<not> clip_rule c xs x"
proof -
  have "not_negative (mad_std1 xs)" by (rule not_negative_mad_std1)
  then show ?thesis
    unfolding clip_rule_def assms
    by (cases x; cases "mad_std1 xs") (simp_all add: fsub_def fgt_def)
qed

lemma mad_std1_replicate_Fin:
  assumes "0 < n" and "odd n \<or> fits 2 (Fin v)"
  shows "mad_std1 (replicate n (Fin v)) = Fin 0"
proof -
  have "median1 (replicate n (Fin v)) = Fin v"
    using assms by (rule median1_replicate)
  moreover have "median1 (replicate n (Fin 0)) = Fin 0"
    using assms(1) by (intro median1_replicate) simp_all
  ultimately show ?thesis
    by (simp add: mad_std1_def fsub_def)
qed

lemma clip_rule_replicate:
  assumes "0 < n"
  shows "\<not> clip_rule clip (replicate n x) x"
  using median1_replicate_cases [OF assms, of x]
proof (elim disjE)
  assume m: "median1 (replicate n x) = x"
  show ?thesis
  proof (cases x)
    case (Fin v)
    have "median1 (replicate n (Fin 0)) = Fin 0"
      using assms by (intro median1_replicate) simp_all
    with m Fin show ?thesis
      by (simp add: clip_rule_def mad_std1_def fsub_def)
  next
    case PInf
    with m show ?thesis by (simp add: clip_rule_median_PInf)
  next
    case NInf
    with m show ?thesis by (simp add: clip_rule_median_NInf)
  next
    case NaN
    with m show ?thesis by (simp add: clip_rule_median_NaN)
  qed
qed (simp_all add: clip_rule_median_PInf clip_rule_median_NInf)

lemma rejected_empty_iff:
  "p < width s \<Longrightarrow>
   rejected clip s p = [] \<longleftrightarrow> (\<forall>x\<in>set (col s p). \<not> clip_rule clip (col s p) x)"
  by (auto simp: rejected_def filter_empty_conv exclude_nth all_set_conv_all_nth)

subsection \<open>Sums\<close>

lemma fsum_Nil [simp]: "fsum [] = Fin 0"
  by (simp add: fsum_def)

lemma foldl_fadd_replicate_Fin:
  assumes "real (k + n) * \<bar>v\<bar> \<le> max_float"
  shows "foldl fadd (Fin (real k * v)) (replicate n (Fin v)) = Fin (real (k + n) * v)"
  using assms
proof (induction n arbitrary: k)
  case 0
  then show ?case by simp
next
  case (Suc n)
  have "real (Suc k) * \<bar>v\<bar> \<le> real (k + Suc n) * \<bar>v\<bar>"
    by (intro mult_right_mono) simp_all
  with Suc.prems have "\<bar>real (Suc k) * v\<bar> \<le> max_float"
    by (simp add: abs_mult)
  then have "ovf (real (Suc k) * v) = Fin (real (Suc k) * v)"
    by (rule ovf_in_range)
  moreover have "real k * v + v = real (Suc k) * v"
    by (simp add: algebra_simps)
  moreover have "foldl fadd (Fin (real (Suc k) * v)) (replicate n (Fin v))
                 = Fin (real (Suc k + n) * v)"
    using Suc.prems by (intro Suc.IH) simp
  ultimately show ?case by simp
qed









subsection \<open>The samples at or below the median survive\<close>

lemma fle_not_flt: "fle x m \<Longrightarrow> \<not> flt m x"
  by (auto simp: fle_def flt_def fgt_def)

lemma not_rejected_if_not_above:
  "0 \<le> c \<Longrightarrow> \<not> flt (median1 xs) x \<Longrightarrow> \<not> clip_rule c xs x"
  using clip_rule_above by blast

lemma median1_not_rejected: "0 \<le> c \<Longrightarrow> \<not> clip_rule c xs (median1 xs)"
  by (rule not_rejected_if_not_above) (simp_all add: flt_def fgt_def)

lemma clip_rule_NaN_sample: "NaN \<in> set xs \<Longrightarrow> \<not> clip_rule c xs x"
  by (rule clip_rule_median_NaN) (simp add: median1_NaN)

lemma length_filter_sort_key:
  "length (filter P (sort_key f xs)) = length (filter P xs)"
proof -
  have "mset (filter P (sort_key f xs)) = mset (filter P xs)"
    by simp
  then show ?thesis by (rule mset_eq_length)
qed

lemma half_kept:
  assumes "0 \<le> c"
  shows "length xs \<le> 2 * length (filter (\<lambda>x. \<not> clip_rule c xs x) xs)"
proof (cases "NaN \<in> set xs")
  case True
  then have "filter (\<lambda>x. \<not> clip_rule c xs x) xs = xs"
    by (simp add: clip_rule_NaN_sample)
  then show ?thesis by simp
next
  case False
  let ?P = "\<lambda>x. \<not> clip_rule c xs x"
  let ?s = "sort_key fkey xs"
  let ?h = "(length xs + 1) div 2"
  have h: "?h \<le> length ?s" by simp
  have "\<forall>x\<in>set (take ?h ?s). ?P x"
  proof
    fix x assume "x \<in> set (take ?h ?s)"
    then obtain i where i: "i < ?h" and x: "x = ?s ! i"
      using h by (auto simp: in_set_conv_nth)
    from i have "2 * i < length xs" by arith
    with assms False show "?P x" unfolding x by (rule lower_half_kept)
  qed
  then have "filter ?P (take ?h ?s) = take ?h ?s" by simp
  then have "length (filter ?P (take ?h ?s)) = ?h" using h by simp
  moreover have "length (filter ?P ?s)
      = length (filter ?P (take ?h ?s)) + length (filter ?P (drop ?h ?s))"
    by (metis append_take_drop_id filter_append length_append)
  ultimately have "?h \<le> length (filter ?P ?s)" by simp
  then have "?h \<le> length (filter ?P xs)" by (simp add: length_filter_sort_key)
  then show ?thesis by arith
qed

lemma filter_index: "map (nth xs) (filter (\<lambda>n. Q (xs ! n)) [0..<length xs]) = filter Q xs"
proof -
  have "filter Q xs = filter Q (map (nth xs) [0..<length xs])"
    by (simp add: map_nth)
  also have "\<dots> = map (nth xs) (filter (\<lambda>n. Q (xs ! n)) [0..<length xs])"
    by (simp add: filter_map comp_def)
  finally show ?thesis by simp
qed

lemma survivors_col:
  assumes "p < width s"
  shows "map (\<lambda>n. images s ! n ! p) (survivors clip s p)
         = filter (\<lambda>x. \<not> clip_rule clip (col s p) x) (col s p)"
proof -
  have sv: "survivors clip s p
        = filter (\<lambda>n. \<not> clip_rule clip (col s p) (col s p ! n)) [0..<length (col s p)]"
    using assms by (auto simp: survivors_def exclude_nth intro: filter_cong)
  have "map (\<lambda>n. images s ! n ! p) (survivors clip s p)
        = map (nth (col s p)) (survivors clip s p)"
    by (rule map_cong) (auto simp: survivors_def)
  also have "\<dots> = filter (\<lambda>x. \<not> clip_rule clip (col s p) x) (col s p)"
    unfolding sv by (rule filter_index)
  finally show ?thesis .
qed

lemma length_survivors:
  "p < width s \<Longrightarrow>
   length (survivors clip s p) = length (filter (\<lambda>x. \<not> clip_rule clip (col s p) x) (col s p))"
  by (metis survivors_col length_map)

lemma half_survive:
  "0 \<le> clip \<Longrightarrow> p < width s \<Longrightarrow> length (images s) \<le> 2 * length (survivors clip s p)"
  using half_kept [of clip "col s p"] by (simp add: length_survivors)

lemma some_survive:
  assumes "0 \<le> clip" and "p < width s" and "images s \<noteq> []"
  shows "survivors clip s p \<noteq> []"
proof
  assume "survivors clip s p = []"
  with half_survive [OF assms(1,2)] have "length (images s) = 0" by simp
  with assms(3) show False by simp
qed

lemma median1_odd_mem:
  assumes "odd (length xs)"
  shows "median1 xs \<in> set xs"
proof (cases "NaN \<in> set xs")
  case True
  then show ?thesis by (simp add: median1_NaN)
next
  case False
  from assms have ne: "xs \<noteq> []" by auto
  then have "length xs div 2 < length xs" by simp
  then have "sort_key fkey xs ! (length xs div 2) \<in> set xs"
    by (rule sorted_nth_mem)
  with ne False assms show ?thesis by (simp add: median1_odd)
qed

subsection \<open>The mean of the samples that are left\<close>

lemma is_fin_conv: "is_fin x \<longleftrightarrow> (\<exists>a. x = Fin a)"
  by (cases x) simp_all

lemma abs_sum_Nil [simp]: "abs_sum [] = 0"
  by (simp add: abs_sum_def)

lemma abs_sum_Cons [simp]: "abs_sum (x # xs) = \<bar>the_fin x\<bar> + abs_sum xs"
  by (simp add: abs_sum_def)













lemma length_clip_combine [simp]: "length (clip_combine clip s) = width s"
  by (simp add: clip_combine_def nanmean_axis0_def)


subsection \<open>The example stacks evaluated\<close>

lemma ovf_small: "\<bar>r\<bar> \<le> 2 ^ 64 \<Longrightarrow> ovf r = Fin r"
proof (rule ovf_in_range)
  assume "\<bar>r\<bar> \<le> 2 ^ 64"
  moreover have "(2::real) ^ 64 \<le> max_float" by (simp add: max_float_def)
  ultimately show "\<bar>r\<bar> \<le> max_float" by linarith
qed

lemma five_images_wf: "wf_stack five_images"
  by (simp add: wf_stack_def five_images_def)

lemma five_images_col0:
  "col five_images 0 = [Fin (- 1000), Fin 1, Fin 2, Fin 3, Fin 1000]"
  by (simp add: col_def five_images_def)

lemma five_images_col1:
  "col five_images (Suc 0) = [Fin 1, Fin 1, Fin 1, Fin 1, Fin 5]"
  by (simp add: col_def five_images_def)

lemma five_images_median0: "median1 (col five_images 0) = Fin 2"
  by (simp add: five_images_col0 median1_def ovf_small)

lemma five_images_mad0: "mad_std1 (col five_images 0) = Fin mad_factor"
  by (simp add: five_images_col0 mad_std1_def median1_def fsub_def ovf_small mad_factor_def)

lemma five_images_median1: "median1 (col five_images (Suc 0)) = Fin 1"
  unfolding five_images_col1 by (simp add: median1_def ovf_small)

lemma five_images_mad1: "mad_std1 (col five_images (Suc 0)) = Fin 0"
  unfolding five_images_col1 by (simp add: mad_std1_def median1_def fsub_def ovf_small)

lemma five_images_rejects_1000: "clip_rule 10 (col five_images 0) (Fin 1000)"
  by (simp add: clip_rule_def five_images_median0 five_images_mad0 fsub_def fgt_def
      mad_factor_def ovf_small)

lemma three_alike_wf: "wf_stack three_alike"
  by (simp add: wf_stack_def three_alike_def list_all_iff)


lemma five_images_shape: "width five_images = 2" "length (images five_images) = 5"
  by (simp_all add: five_images_def)

lemma five_images_median_axis0: "median_axis0 five_images = [Fin 2, Fin 1]"
  by (simp add: median_axis0_def five_images_shape upt_conv_Cons
      five_images_median0 five_images_median1)






lemma two_images_col: "col two_images 0 = [Fin 1, Fin 3]"
  by (simp add: col_def two_images_def)


lemma huge_doubles: "ovf (2 ^ 1023 + 2 ^ 1023) = PInf"
  by (simp add: ovf_def max_float_def)

subsection \<open>One outlier among equal samples\<close>

lemma insort_key_Fin:
  "insort_key fkey (Fin a) (map Fin rs) = map Fin (insort a rs)"
  by (induction rs) simp_all

lemma sort_key_Fin: "sort_key fkey (map Fin rs) = map Fin (sort rs)"
  by (induction rs) (simp_all add: insort_key_Fin)

lemma sort_outlier:
  fixes a b :: real
  assumes "a < b"
  shows "sort (replicate i a @ b # replicate j a) = replicate (i + j) a @ [b]"
proof (rule properties_for_sort)
  show "mset (replicate (i + j) a @ [b]) = mset (replicate i a @ b # replicate j a)"
    by (simp add: replicate_add)
  show "sorted (replicate (i + j) a @ [b])"
    using assms by (simp add: sorted_append)
qed

lemma Fin_outlier:
  "replicate i (Fin a) @ Fin b # replicate j (Fin a) = map Fin (replicate i a @ b # replicate j a)"
  by simp

lemma median1_outlier:
  assumes "a < b" and "2 \<le> i + j" and "fits 2 (Fin a)"
  shows "median1 (replicate i (Fin a) @ Fin b # replicate j (Fin a)) = Fin a"
proof -
  let ?xs = "replicate i (Fin a) @ Fin b # replicate j (Fin a)"
  have len: "length ?xs = i + j + 1" by simp
  have srt: "sort_key fkey ?xs = map Fin (replicate (i + j) a @ [b])"
    unfolding Fin_outlier sort_key_Fin sort_outlier [OF assms(1)] ..
  have ne: "?xs \<noteq> []" "NaN \<notin> set ?xs" by auto
  have idx: "(i + j + 1) div 2 < i + j" "(i + j + 1) div 2 - 1 < i + j"
    using assms(2) by arith+
  have same: "fdiv (fadd (Fin a) (Fin a)) (Fin 2) = Fin a"
    using assms(3) by (intro mean2_same) simp_all
  show ?thesis
  proof (cases "odd (length ?xs)")
    case True
    then show ?thesis
      unfolding median1_odd [OF ne True] srt len using idx
      by (simp add: nth_append)
  next
    case False
    then have ev: "even (length ?xs)" by simp
    show ?thesis
      unfolding median1_even [OF ne ev] srt len using idx same
      by (simp add: nth_append)
  qed
qed

lemma mad_std1_outlier:
  assumes "a < b" and "2 \<le> i + j" and "fits 2 (Fin a)" and "b - a \<le> max_float"
  shows "mad_std1 (replicate i (Fin a) @ Fin b # replicate j (Fin a)) = Fin 0"
proof -
  have pos: "0 < b - a" using assms(1) by simp
  with assms(4) have d: "ovf (b - a) = Fin (b - a)"
    by (intro ovf_in_range) simp
  have "median1 (replicate i (Fin 0) @ Fin (b - a) # replicate j (Fin 0)) = Fin 0"
    using pos assms(2) by (rule median1_outlier) simp
  with assms(1) d show ?thesis
    by (simp add: mad_std1_def median1_outlier [OF assms(1-3)] fsub_def abs_if)
qed

lemma clip_rule_outlier:
  assumes "a < b" and "2 \<le> i + j" and "fits 2 (Fin a)" and "b - a \<le> max_float"
  shows "clip_rule clip (replicate i (Fin a) @ Fin b # replicate j (Fin a)) (Fin b)"
    and "\<not> clip_rule clip (replicate i (Fin a) @ Fin b # replicate j (Fin a)) (Fin a)"
proof -
  from assms(1,4) have d: "ovf (b - a) = Fin (b - a)"
    by (intro ovf_in_range) simp
  with assms(1)
  show "clip_rule clip (replicate i (Fin a) @ Fin b # replicate j (Fin a)) (Fin b)"
    by (simp add: clip_rule_def median1_outlier [OF assms(1-3)] mad_std1_outlier [OF assms]
        fsub_def fgt_def)
  show "\<not> clip_rule clip (replicate i (Fin a) @ Fin b # replicate j (Fin a)) (Fin a)"
    by (simp add: clip_rule_def median1_outlier [OF assms(1-3)] mad_std1_outlier [OF assms]
        fsub_def)
qed

lemma nanmean1_outlier_masked:
  assumes "0 < i + j" and "fits (i + j) (Fin a)"
  shows "nanmean1 (replicate i (Fin a) @ NaN # replicate j (Fin a)) = Fin a"
proof -
  from assms(2) have fi: "fits i (Fin a)" by (rule fits_mono [rotated]) simp
  then have "\<bar>real i * a\<bar> \<le> max_float" by (simp add: abs_mult)
  then have keep: "ovf (real i * a) = Fin (real i * a)" by (rule ovf_in_range)
  have "foldl fadd (Fin 0) (replicate i (Fin a)) = Fin (real i * a)"
    using foldl_fadd_replicate_Fin [of 0 i a] fi by simp
  moreover have "foldl fadd (Fin (real i * a)) (replicate j (Fin a)) = Fin (real (i + j) * a)"
    using assms(2) by (intro foldl_fadd_replicate_Fin) simp
  ultimately have "fsum (map (\<lambda>x. if x = NaN then Fin 0 else x)
               (replicate i (Fin a) @ NaN # replicate j (Fin a)))
        = Fin (real (i + j) * a)"
    using keep by (simp add: fsum_def)
  moreover have "length (filter (\<lambda>x. x \<noteq> NaN) (replicate i (Fin a) @ NaN # replicate j (Fin a)))
        = i + j"
    by simp
  moreover have "0 < real (i + j)"
    using assms(1) by (simp only: of_nat_0_less_iff)
  moreover have "ovf a = Fin a"
    using assms by (intro ovf_in_range fits_range [of "i + j"])
  ultimately show ?thesis
    unfolding nanmean1_def by simp
qed

lemma replicate_update:
  "k < n \<Longrightarrow> (replicate n x)[k := y] = replicate k x @ y # replicate (n - Suc k) x"
  by (simp add: upd_conv_take_nth_drop)

lemma outlier_stack_wf: "p < P \<Longrightarrow> wf_stack (outlier_stack P k p)"
  by (auto simp: wf_stack_def outlier_stack_def list_all_iff dest!: set_update_subset_insert [THEN subsetD])

lemma outlier_stack_col:
  assumes "k < 20" and "p < P"
  shows "col (outlier_stack P k p) p
         = replicate k (Fin 100) @ Fin 10000 # replicate (19 - k) (Fin 100)"
proof -
  have "col (outlier_stack P k p) p = (replicate 20 (Fin 100))[k := Fin 10000]"
    using assms by (simp add: col_def outlier_stack_def map_update)
  with assms(1) show ?thesis by (simp add: replicate_update)
qed

lemma filter_upt_eq: "k < m \<Longrightarrow> filter (\<lambda>n. n = k) [0..<m] = [k]"
  by (induction m) (auto simp: less_Suc_eq filter_empty_conv)

lemma max_float_big: "(10::real) ^ 6 \<le> max_float"
  by (simp add: max_float_def)

subsection \<open>Masking and restoring\<close>

lemma put_row_restore:
  assumes "length img = length m"
  shows "put_row (map2 (\<lambda>x b. if b then v else x) img m) m (select_row img m @ rest)
         = (img, rest)"
  using assms
proof (induction img m rule: list_induct2)
  case Nil
  then show ?case by (simp add: select_row_def)
next
  case (Cons x xs b bs)
  then show ?case by (cases b) (simp_all add: select_row_def)
qed

lemma put_rows_restore:
  assumes "length imgs = length ex"
    and "\<forall>(img, m) \<in> set (zip imgs ex). length img = length m"
  shows "put_rows (map2 (\<lambda>img m. map2 (\<lambda>x b. if b then v else x) img m) imgs ex) ex
           (concat (map2 select_row imgs ex) @ rest)
         = imgs"
  using assms
proof (induction imgs ex rule: list_induct2)
  case Nil
  then show ?case by simp
next
  case (Cons img imgs m ex)
  then show ?case by (simp add: put_row_restore)
qed

lemma length_select_row:
  "length img = length m \<Longrightarrow> length (select_row img m) = length (filter (\<lambda>b. b) m)"
proof (induction img m rule: list_induct2)
  case Nil
  then show ?case by (simp add: select_row_def)
next
  case (Cons x xs b bs)
  then show ?case by (simp add: select_row_def)
qed

lemma length_select_rows:
  assumes "length imgs = length ex"
    and "\<forall>(img, m) \<in> set (zip imgs ex). length img = length m"
  shows "length (concat (map2 select_row imgs ex)) = length (filter (\<lambda>b. b) (concat ex))"
  using assms
proof (induction imgs ex rule: list_induct2)
  case Nil
  then show ?case by simp
next
  case (Cons img imgs m ex)
  then show ?case by (simp add: length_select_row)
qed

lemma same_shape_exclude: "same_shape s (exclude clip s)"
  by (simp add: same_shape_def exclude_def list_all_iff)

lemma same_shape_rows:
  assumes "wf_stack s" and "same_shape s ex"
  shows "\<forall>(img, m) \<in> set (zip (images s) ex). length img = length m"
  using assms
  unfolding wf_stack_def same_shape_def list_all_iff
  by (metis (mono_tags, lifting) case_prodI2 set_zip_leftD set_zip_rightD)

lemma assign_mask_restore:
  assumes "wf_stack s" and "same_shape s ex"
  shows "assign_mask (set_mask s ex NaN) ex (select s ex) = Inr s"
proof -
  from assms(2) have len: "length (images s) = length ex"
    by (simp add: same_shape_def)
  note rows = same_shape_rows [OF assms]
  have shape: "same_shape (set_mask s ex NaN) ex"
    using assms(2) by (simp add: same_shape_def set_mask_def)
  have cnt: "length (select s ex) = count_true ex"
    unfolding select_def count_true_def using len rows by (rule length_select_rows)
  have "put_rows (images (set_mask s ex NaN)) ex (select s ex) = images s"
    using put_rows_restore [OF len rows, of NaN "[]"]
    by (simp add: set_mask_def select_def)
  then have "(set_mask s ex NaN)\<lparr>images := put_rows (images (set_mask s ex NaN)) ex (select s ex)\<rparr> = s"
    by (simp add: set_mask_def)
  with shape cnt show ?thesis
    by (simp add: assign_mask_def)
qed

subsection \<open>Running the cells\<close>


lemma combine_cells_run:
  assumes "bits < length h" and "h ! bits = Float2 b" and "wf_stack b"
  shows "combine_cells clip bits h
         = Inr (length h + 4,
                ((h @ [Float1 (median_axis0 b), Float1 (mad_std_axis0 b),
                       Bool2 (exclude clip b), Float1 (select b (exclude clip b))])
                   [bits := Float2 (set_mask b (exclude clip b) NaN)]
                 @ [Float1 (clip_combine clip b)])
                [bits := Float2 b])"
proof -
  have rd: "float2_at h bits = Inr b"
    using assms(1,2) by (simp add: float2_at_def)
  have restored: "assign_mask (set_mask b (exclude clip b) NaN) (exclude clip b)
                    (select b (exclude clip b)) = Inr b"
    using assms(3) same_shape_exclude by (rule assign_mask_restore)
  show ?thesis
    using assms(3)
    by (simp add: combine_cells_def rd new_array_def restored Let_def clip_combine_def)
qed




section \<open>The claims\<close>

text \<open>
  C1. For every rectangular, non-empty stack and every positive threshold, the mask marks
  sample \<open>n\<close> of pixel \<open>p\<close> exactly when (sample - median) / mad_sigma > clip, with the
  median and the scale of that pixel; and the rule is one-sided: a sample below the median
  of its pixel is never marked, however far below it lies.
\<close>

theorem exclude_is_one_sided_clip_rule:
  assumes "wf_stack s" and "images s \<noteq> []" and "0 < clip"
    and "n < length (images s)" and "p < width s"
  shows "(exclude clip s ! n ! p \<longleftrightarrow>
            fgt (fdiv (fsub (images s ! n ! p) (median1 (col s p))) (mad_std1 (col s p)))
                (Fin clip))
         \<and> (flt (images s ! n ! p) (median1 (col s p)) \<longrightarrow> \<not> exclude clip s ! n ! p)"
proof
  show "exclude clip s ! n ! p \<longleftrightarrow>
          fgt (fdiv (fsub (images s ! n ! p) (median1 (col s p))) (mad_std1 (col s p)))
              (Fin clip)"
    using assms(4,5) by (simp add: exclude_nth clip_rule_def)
next
  show "flt (images s ! n ! p) (median1 (col s p)) \<longrightarrow> \<not> exclude clip s ! n ! p"
  proof (intro impI notI)
    assume below: "flt (images s ! n ! p) (median1 (col s p))"
    assume "exclude clip s ! n ! p"
    with assms(4,5) have "clip_rule clip (col s p) (images s ! n ! p)"
      by (simp add: exclude_nth)
    with assms(3) have "flt (median1 (col s p)) (images s ! n ! p)"
      by (intro clip_rule_above) simp_all
    with below show False by (simp add: flt_asym)
  qed
qed

theorem exclude_is_one_sided_clip_rule_witness:
  "wf_stack five_images \<and> images five_images \<noteq> [] \<and> (0::real) < 10
   \<and> 0 < length (images five_images) \<and> 0 < width five_images
   \<and> flt (images five_images ! 0 ! 0) (median1 (col five_images 0))
   \<and> \<not> exclude 10 five_images ! 0 ! 0"
proof -
  have h: "wf_stack five_images" "images five_images \<noteq> []" "(0::real) < 10"
    "0 < length (images five_images)" "0 < width five_images"
    by (simp_all add: five_images_wf) (simp_all add: five_images_def)
  have below: "flt (images five_images ! 0 ! 0) (median1 (col five_images 0))"
    by (simp add: five_images_median0) (simp add: five_images_def flt_def fgt_def)
  from exclude_is_one_sided_clip_rule [OF h] below h show ?thesis by blast
qed







text \<open>
  C4, as the cells have it. At a pixel whose N \<open>\<ge>\<close> 1 samples are all identical, no sample
  is rejected, whatever the threshold; and the scale \<open>mad_sigma\<close> is zero when the common
  value is finite and N is odd or twice the value does not overflow.
\<close>

theorem identical_samples_none_rejected:
  assumes "wf_stack s" and "images s \<noteq> []" and "p < width s"
    and "col s p = replicate (length (images s)) x"
  shows "rejected clip s p = []
         \<and> (is_fin x \<and> (odd (length (images s)) \<or> fits 2 x) \<longrightarrow>
              mad_std_axis0 s ! p = Fin 0)"
proof
  from assms(2) have pos: "0 < length (images s)" by simp
  have "\<forall>y\<in>set (col s p). \<not> clip_rule clip (col s p) y"
    unfolding assms(4) using pos by (simp add: clip_rule_replicate)
  then show "rejected clip s p = []"
    using assms(3) by (simp add: rejected_empty_iff)
  show "is_fin x \<and> (odd (length (images s)) \<or> fits 2 x) \<longrightarrow> mad_std_axis0 s ! p = Fin 0"
  proof
    assume a: "is_fin x \<and> (odd (length (images s)) \<or> fits 2 x)"
    then obtain v where x: "x = Fin v" by (auto simp: is_fin_conv)
    with a pos have "mad_std1 (replicate (length (images s)) (Fin v)) = Fin 0"
      by (intro mad_std1_replicate_Fin) simp_all
    with assms(3,4) x show "mad_std_axis0 s ! p = Fin 0" by simp
  qed
qed

theorem identical_samples_none_rejected_witness:
  "wf_stack three_alike \<and> images three_alike \<noteq> [] \<and> 0 < width three_alike
   \<and> col three_alike 0 = replicate (length (images three_alike)) (Fin 7)
   \<and> is_fin (Fin 7) \<and> odd (length (images three_alike))
   \<and> rejected 10 three_alike 0 = [] \<and> mad_std_axis0 three_alike ! 0 = Fin 0"
proof -
  have h: "wf_stack three_alike" "images three_alike \<noteq> []" "0 < width three_alike"
    "col three_alike 0 = replicate (length (images three_alike)) (Fin 7)"
    by (simp_all add: three_alike_wf) (simp_all add: three_alike_def col_def)
  have o: "is_fin (Fin 7)" "odd (length (images three_alike))"
    by (simp_all add: three_alike_def)
  from identical_samples_none_rejected [OF h, of 10] h o show ?thesis by blast
qed

text \<open>
  C4 as stated fails where it says that the scale is zero: for two identical samples of
  \<^verbatim>\<open>2^1023\<close> the sum of the two middle samples overflows, the median is \<open>+inf\<close>, every
  deviation is \<open>+inf\<close>, and \<open>mad_sigma\<close> is \<open>+inf\<close>.
\<close>

theorem huge_identical_samples_scale_infinite:
  "wf_stack huge_pair \<and> col huge_pair 0 = replicate 2 (Fin (2 ^ 1023))
   \<and> median_axis0 huge_pair ! 0 = PInf \<and> mad_std_axis0 huge_pair ! 0 = PInf"
proof -
  define h :: real where "h = 2 ^ 1023"
  have "ovf (h + h) = PInf"
    unfolding h_def by (rule huge_doubles)
  then have hh: "ovf (2 * h) = PInf" by simp
  have w: "0 < width huge_pair" by (simp add: huge_pair_def)
  have c: "col huge_pair 0 = [Fin h, Fin h]"
    unfolding h_def by (simp add: col_def huge_pair_def numeral_2_eq_2)
  have m: "median1 [Fin h, Fin h] = PInf"
    by (simp add: median1_def hh)
  have "map (\<lambda>x. fabs (fsub x PInf)) [Fin h, Fin h] = [PInf, PInf]"
    by (simp add: fsub_def)
  moreover have "median1 [PInf, PInf] = PInf"
    by (simp add: median1_def)
  ultimately have s: "mad_std1 [Fin h, Fin h] = PInf"
    using mad_factor_pos by (simp add: mad_std1_def m)
  from m s c w have "median_axis0 huge_pair ! 0 = PInf" "mad_std_axis0 huge_pair ! 0 = PInf"
    by simp_all
  moreover have "wf_stack huge_pair"
    by (simp add: wf_stack_def huge_pair_def list_all_iff)
  moreover have "col huge_pair 0 = replicate 2 (Fin (2 ^ 1023))"
    by (simp add: col_def huge_pair_def)
  ultimately show ?thesis by blast
qed




text \<open>
  C6. In the stack of 20 constant images of value 100 with one pixel of one image set to
  10000, the sample 10000 is the one rejected sample of that pixel, for every positive
  threshold, and the combined value of the pixel is 100.
\<close>

theorem outlier_rejected_mean_stays_100:
  assumes "k < 20" and "p < P" and "0 < clip"
  shows "rejected clip (outlier_stack P k p) p = [k]
         \<and> clip_combine clip (outlier_stack P k p) ! p = Fin 100"
proof -
  let ?s = "outlier_stack P k p"
  let ?xs = "replicate k (Fin 100) @ Fin 10000 # replicate (19 - k) (Fin 100)"
  have wf: "wf_stack ?s" using assms(2) by (rule outlier_stack_wf)
  have w: "p < width ?s" using assms(2) by (simp add: outlier_stack_def)
  have c: "col ?s p = ?xs" using assms(1,2) by (rule outlier_stack_col)
  have ij: "(100::real) < 10000" "2 \<le> k + (19 - k)" "fits 2 (Fin 100)"
    "(10000::real) - 100 \<le> max_float"
    using assms(1) max_float_big by simp_all
  note rule = clip_rule_outlier [OF ij, of clip]
  have len: "length (images ?s) = 20" by (simp add: outlier_stack_def)
  have "rejected clip ?s p = filter (\<lambda>n. n = k) [0..<20]"
    unfolding rejected_def len
  proof (rule filter_cong [OF refl])
    fix n assume "n \<in> set [0..<20]"
    then have n: "n < length (images ?s)" by (simp add: len)
    have "images ?s ! n ! p = ?xs ! n"
      using n by (simp add: c [symmetric])
    also have "\<dots> = (if n = k then Fin 10000 else Fin 100)"
      using n assms(1) by (auto simp: len nth_append nth_Cons')
    finally show "exclude clip ?s ! n ! p \<longleftrightarrow> n = k"
      using n w rule by (simp add: exclude_nth c)
  qed
  with assms(1) have r: "rejected clip ?s p = [k]" by (simp add: filter_upt_eq)
  have m: "map (\<lambda>x. if clip_rule clip ?xs x then NaN else x) ?xs
        = replicate k (Fin 100) @ NaN # replicate (19 - k) (Fin 100)"
    using rule by simp
  have "clip_combine clip ?s ! p
        = nanmean1 (replicate k (Fin 100) @ NaN # replicate (19 - k) (Fin 100))"
    unfolding clip_combine_nth [OF wf w] c m ..
  also have "\<dots> = Fin 100"
    using assms(1) max_float_big by (intro nanmean1_outlier_masked) simp_all
  finally show ?thesis using r by simp
qed

theorem outlier_rejected_mean_stays_100_witness:
  "(3::nat) < 20 \<and> (2::nat) < 4 \<and> (0::real) < 10
   \<and> rejected 10 (outlier_stack 4 3 2) 2 = [3]
   \<and> clip_combine 10 (outlier_stack 4 3 2) ! 2 = Fin 100"
proof -
  have h: "(3::nat) < 20" "(2::nat) < 4" "(0::real) < 10" by simp_all
  from outlier_rejected_mean_stays_100 [OF h] h show ?thesis by blast
qed

text \<open>
  C7. For a fixed stack and thresholds \<open>0 < c1 \<le> c2\<close>, the samples of a pixel rejected
  with the larger threshold \<open>c2\<close> are among those rejected with the smaller one \<open>c1\<close>.
\<close>

theorem rejection_monotone_in_clip:
  assumes "0 < c1" and "c1 \<le> c2" and "p < width s"
  shows "set (rejected c2 s p) \<subseteq> set (rejected c1 s p)"
proof
  fix n assume "n \<in> set (rejected c2 s p)"
  with assms(3) have n: "n < length (images s)"
    and r: "clip_rule c2 (col s p) (images s ! n ! p)"
    by (simp_all add: rejected_iff)
  from r assms(2) have "clip_rule c1 (col s p) (images s ! n ! p)"
    unfolding clip_rule_def by (rule fgt_mono [rotated])
  with n assms(3) show "n \<in> set (rejected c1 s p)"
    by (simp add: rejected_iff)
qed

theorem rejection_monotone_in_clip_witness:
  "(0::real) < 5 \<and> (5::real) \<le> 10 \<and> 0 < width five_images
   \<and> 4 \<in> set (rejected 10 five_images 0) \<and> 4 \<in> set (rejected 5 five_images 0)"
proof -
  have h: "(0::real) < 5" "(5::real) \<le> 10" "0 < width five_images"
    by (simp_all add: five_images_def)
  have "images five_images ! 4 ! 0 = Fin 1000" "4 < length (images five_images)"
    by (simp_all add: five_images_def)
  with h(3) have "4 \<in> set (rejected 10 five_images 0)"
    by (simp add: rejected_iff five_images_rejects_1000)
  with rejection_monotone_in_clip [OF h] h show ?thesis by blast
qed

text \<open>
  C8. Run on a heap in which \<open>bits\<close> names a rectangular stack, the cells raise nothing
  and return; afterwards the stack holds exactly the values it held before, every other
  array that existed before is unchanged, and the combined image is an array at a new
  address, one that no array had before the run.
\<close>

theorem cells_restore_bits_result_fresh:
  assumes "bits < length h" and "h ! bits = Float2 b" and "wf_stack b"
  shows "\<exists>out h'. combine_cells clip bits h = Inr (out, h')
           \<and> h' ! bits = Float2 b
           \<and> (\<forall>a<length h. h' ! a = h ! a)
           \<and> length h \<le> out \<and> out < length h'
           \<and> h' ! out = Float1 (clip_combine clip b)"
proof -
  let ?ex = "exclude clip b"
  let ?masked = "set_mask b ?ex NaN"
  let ?hv = "h @ [Float1 (median_axis0 b), Float1 (mad_std_axis0 b), Bool2 ?ex,
                  Float1 (select b ?ex)]"
  let ?hm = "?hv[bits := Float2 ?masked] @ [Float1 (clip_combine clip b)]"
  let ?hr = "?hm[bits := Float2 b]"
  have run: "combine_cells clip bits h = Inr (length h + 4, ?hr)"
    using assms by (rule combine_cells_run)
  have "?hr ! bits = Float2 b"
    using assms(1) by simp
  moreover have "\<forall>a<length h. ?hr ! a = h ! a"
    using assms(1,2) by (auto simp: nth_list_update nth_append)
  moreover have "?hr ! (length h + 4) = Float1 (clip_combine clip b)"
    using assms(1) by (simp add: nth_append)
  ultimately show ?thesis
    using run by simp
qed

theorem cells_restore_bits_result_fresh_witness:
  "(0::nat) < length [Float2 five_images] \<and> [Float2 five_images] ! 0 = Float2 five_images
   \<and> wf_stack five_images
   \<and> (\<exists>out h'. combine_cells 10 0 [Float2 five_images] = Inr (out, h')
         \<and> h' ! 0 = Float2 five_images
         \<and> (\<forall>a<length [Float2 five_images]. h' ! a = [Float2 five_images] ! a)
         \<and> length [Float2 five_images] \<le> out \<and> out < length h'
         \<and> h' ! out = Float1 (clip_combine 10 five_images))"
proof -
  have h: "(0::nat) < length [Float2 five_images]"
    "[Float2 five_images] ! 0 = Float2 five_images" "wf_stack five_images"
    by (simp_all add: five_images_wf)
  from cells_restore_bits_result_fresh [OF h] h show ?thesis by blast
qed

text \<open>
  C9, as the cells have it. At every pixel of a rectangular, non-empty stack and for every
  positive threshold: a sample that is at most the median of its pixel survives; at least
  half of the samples survive; so some sample survives and the case of a pixel with every
  sample rejected does not occur; and when the number of images is odd, a surviving sample
  attains the median.
\<close>

theorem samples_up_to_median_survive:
  assumes "wf_stack s" and "images s \<noteq> []" and "0 < clip" and "p < width s"
  shows "(\<forall>n<length (images s).
            fle (images s ! n ! p) (median_axis0 s ! p) \<longrightarrow> n \<in> set (survivors clip s p))
         \<and> length (images s) \<le> 2 * length (survivors clip s p)
         \<and> survivors clip s p \<noteq> []
         \<and> (odd (length (images s)) \<longrightarrow>
              (\<exists>n\<in>set (survivors clip s p). images s ! n ! p = median_axis0 s ! p))"
proof (intro conjI allI impI)
  from assms(3) have c: "0 \<le> clip" by simp
  {
    fix n assume n: "n < length (images s)"
      and le: "fle (images s ! n ! p) (median_axis0 s ! p)"
    from le assms(4) have "\<not> flt (median1 (col s p)) (images s ! n ! p)"
      by (simp add: fle_not_flt)
    with c have "\<not> clip_rule clip (col s p) (images s ! n ! p)"
      by (rule not_rejected_if_not_above)
    with n assms(4) show "n \<in> set (survivors clip s p)"
      by (simp add: survivors_iff)
  }
  show "length (images s) \<le> 2 * length (survivors clip s p)"
    using c assms(4) by (rule half_survive)
  show "survivors clip s p \<noteq> []"
    using c assms(4,2) by (rule some_survive)
  {
    assume "odd (length (images s))"
    then have "median1 (col s p) \<in> set (col s p)"
      by (intro median1_odd_mem) simp
    then obtain n where n: "n < length (images s)"
      and m: "images s ! n ! p = median1 (col s p)"
      by (auto simp: in_set_conv_nth)
    from c have "\<not> clip_rule clip (col s p) (images s ! n ! p)"
      unfolding m by (rule median1_not_rejected)
    with n assms(4) have "n \<in> set (survivors clip s p)"
      by (simp add: survivors_iff)
    with m assms(4)
    show "\<exists>n\<in>set (survivors clip s p). images s ! n ! p = median_axis0 s ! p"
      by auto
  }
qed

theorem samples_up_to_median_survive_witness:
  "wf_stack five_images \<and> images five_images \<noteq> [] \<and> (0::real) < 10
   \<and> 0 < width five_images
   \<and> fle (images five_images ! 0 ! 0) (median_axis0 five_images ! 0)
   \<and> 0 \<in> set (survivors 10 five_images 0)
   \<and> length (images five_images) \<le> 2 * length (survivors 10 five_images 0)
   \<and> odd (length (images five_images))
   \<and> (\<exists>n\<in>set (survivors 10 five_images 0).
         images five_images ! n ! 0 = median_axis0 five_images ! 0)"
proof -
  have h: "wf_stack five_images" "images five_images \<noteq> []" "(0::real) < 10"
    "0 < width five_images"
    by (simp_all add: five_images_wf) (simp_all add: five_images_def)
  have n: "0 < length (images five_images)" "odd (length (images five_images))"
    by (simp_all add: five_images_shape)
  have le: "fle (images five_images ! 0 ! 0) (median_axis0 five_images ! 0)"
    unfolding five_images_median_axis0 by (simp add: five_images_def fle_def)
  from samples_up_to_median_survive [OF h] h n le show ?thesis by blast
qed

text \<open>
  C9 as stated fails where it says that a surviving sample attains the median: for an even
  number of images the median is the mean of the two middle samples. With the samples 1
  and 3 it is 2, which no sample attains.
\<close>

theorem even_stack_median_not_a_sample:
  "wf_stack two_images \<and> images two_images \<noteq> []
   \<and> median1 (col two_images 0) = Fin 2
   \<and> median1 (col two_images 0) \<notin> set (col two_images 0)"
proof -
  have "wf_stack two_images" "images two_images \<noteq> []"
    by (simp_all add: wf_stack_def two_images_def)
  moreover have "median1 (col two_images 0) = Fin 2"
    unfolding two_images_col by (simp add: median1_def ovf_small)
  moreover have "Fin 2 \<notin> set (col two_images 0)"
    unfolding two_images_col by simp
  ultimately show ?thesis by simp
qed

text \<open>
  C10. At a pixel whose scale \<open>mad_sigma\<close> is zero, a sample strictly above the median is
  rejected whatever the threshold: the quotient (sample - median) / mad_sigma is +infinity.
  Such a sample exists only when the samples are not all identical, as at pixel 1 of
  \<open>five_images\<close>, where four of five samples share the value 1.
\<close>

theorem zero_scale_rejects_above_median:
  assumes "n < length (images s)" and "p < width s"
    and "mad_std_axis0 s ! p = Fin 0"
    and "flt (median_axis0 s ! p) (images s ! n ! p)"
  shows "fdiv (fsub (images s ! n ! p) (median_axis0 s ! p)) (mad_std_axis0 s ! p) = PInf
         \<and> exclude clip s ! n ! p"
proof -
  from assms(2,3) have sg: "mad_std1 (col s p) = Fin 0" by simp
  from assms(2,4) have "flt (median1 (col s p)) (images s ! n ! p)" by simp
  then have "fdiv (fsub (images s ! n ! p) (median1 (col s p))) (Fin 0) = PInf"
    by (rule quotient_zero_scale)
  with assms(1,2) sg show ?thesis
    by (simp add: exclude_nth clip_rule_def fgt_def)
qed

theorem zero_scale_rejects_above_median_witness:
  "4 < length (images five_images) \<and> 1 < width five_images
   \<and> mad_std_axis0 five_images ! 1 = Fin 0
   \<and> flt (median_axis0 five_images ! 1) (images five_images ! 4 ! 1)
   \<and> col five_images 1 = [Fin 1, Fin 1, Fin 1, Fin 1, Fin 5]
   \<and> fdiv (fsub (images five_images ! 4 ! 1) (median_axis0 five_images ! 1))
            (mad_std_axis0 five_images ! 1) = PInf
   \<and> exclude 10 five_images ! 4 ! 1"
proof -
  have w: "1 < width five_images" by (simp add: five_images_def)
  have h: "4 < length (images five_images)" "1 < width five_images"
    "mad_std_axis0 five_images ! 1 = Fin 0"
    "flt (median_axis0 five_images ! 1) (images five_images ! 4 ! 1)"
    using mad_std_axis0_nth [OF w] median_axis0_nth [OF w]
    by (simp_all add: five_images_mad1 five_images_median1)
       (simp_all add: five_images_def flt_def fgt_def)
  have c: "col five_images 1 = [Fin 1, Fin 1, Fin 1, Fin 1, Fin 5]"
    by (simp add: five_images_col1)
  from zero_scale_rejects_above_median [OF h] h c show ?thesis by blast
qed

end
